theory Spec2Isabelle
  imports Complex_Main
begin

section \<open>Array entries: exact reals extended with the IEEE special values\<close>

text \<open>
  The module \<open>ml-iap/descriptor.py\<close> computes with numpy arrays of double-precision
  numbers. The properties verified here are the ones of exact arithmetic, so a finite
  array entry is a real number. Division by zero does not raise in numpy: it yields
  \<open>nan\<close> (for \<open>0/0\<close>) or an infinity, and the special values then flow through the
  rest of the computation. An array entry is therefore a real number or one of the three
  special values, with the arithmetic of IEEE 754 on them. A zero divisor is taken as the
  positive zero, so a non-zero finite number divided by zero takes the sign of the
  numerator: the zero divisors the module can meet are \<open>d\<close>, \<open>norm\<close> and \<open>beta**2\<close>,
  which are never negative zeros, and \<open>beta\<close>, whose quotient is squared at once.
  Rounding, overflow and underflow of finite results are not part of this arithmetic; the
  underflow of the exponential, which decides whether a feature can be zero, is added
  separately in \<open>fexp_double\<close>.
\<close>

datatype fval = Fin real | PInf | NInf | NaN

fun fneg :: "fval \<Rightarrow> fval" where
  "fneg (Fin a) = Fin (- a)"
| "fneg PInf = NInf"
| "fneg NInf = PInf"
| "fneg NaN = NaN"

fun fadd :: "fval \<Rightarrow> fval \<Rightarrow> fval" where
  "fadd (Fin a) (Fin b) = Fin (a + b)"
| "fadd NaN _ = NaN"
| "fadd _ NaN = NaN"
| "fadd PInf NInf = NaN"
| "fadd NInf PInf = NaN"
| "fadd PInf _ = PInf"
| "fadd _ PInf = PInf"
| "fadd NInf _ = NInf"
| "fadd _ NInf = NInf"

definition fsub :: "fval \<Rightarrow> fval \<Rightarrow> fval" where
  "fsub a b = fadd a (fneg b)"

text \<open>The sign of an entry: \<open>1\<close>, \<open>0\<close> or \<open>-1\<close>; \<open>NaN\<close> has none.\<close>

fun fsign :: "fval \<Rightarrow> int option" where
  "fsign (Fin a) = Some (if 0 < a then 1 else if a < 0 then - 1 else 0)"
| "fsign PInf = Some 1"
| "fsign NInf = Some (- 1)"
| "fsign NaN = None"

definition inf_of_sign :: "int \<Rightarrow> fval" where
  "inf_of_sign s = (if 0 < s then PInf else if s < 0 then NInf else NaN)"

fun fmul :: "fval \<Rightarrow> fval \<Rightarrow> fval" where
  "fmul (Fin a) (Fin b) = Fin (a * b)"
| "fmul a b =
     (case (fsign a, fsign b) of
        (Some s, Some t) \<Rightarrow> inf_of_sign (s * t)
      | _ \<Rightarrow> NaN)"

fun fdiv :: "fval \<Rightarrow> fval \<Rightarrow> fval" where
  "fdiv (Fin a) (Fin b) =
     (if b \<noteq> 0 then Fin (a / b)
      else if 0 < a then PInf else if a < 0 then NInf else NaN)"
| "fdiv NaN _ = NaN"
| "fdiv _ NaN = NaN"
| "fdiv (Fin a) _ = Fin 0"
| "fdiv PInf (Fin b) = (if 0 \<le> b then PInf else NInf)"
| "fdiv NInf (Fin b) = (if 0 \<le> b then NInf else PInf)"
| "fdiv _ _ = NaN"

fun fexp :: "fval \<Rightarrow> fval" where
  "fexp (Fin a) = Fin (exp a)"
| "fexp PInf = PInf"
| "fexp NInf = Fin 0"
| "fexp NaN = NaN"

fun fsqrt :: "fval \<Rightarrow> fval" where
  "fsqrt (Fin a) = (if 0 \<le> a then Fin (sqrt a) else NaN)"
| "fsqrt PInf = PInf"
| "fsqrt NInf = NaN"
| "fsqrt NaN = NaN"

text \<open>The comparison \<open><\<close>: false whenever an operand is \<open>NaN\<close>.\<close>

fun flt :: "fval \<Rightarrow> fval \<Rightarrow> bool" where
  "flt (Fin a) (Fin b) = (a < b)"
| "flt NaN _ = False"
| "flt _ NaN = False"
| "flt _ NInf = False"
| "flt PInf _ = False"
| "flt _ _ = True"

text \<open>\<open>a ** 2\<close> on an array entry.\<close>

definition fpow2 :: "fval \<Rightarrow> fval" where
  "fpow2 a = fmul a a"

text \<open>\<open>.sum(...)\<close> along one axis: the entries added up, starting from zero.\<close>

definition fsum :: "fval list \<Rightarrow> fval" where
  "fsum xs = foldr fadd xs (Fin 0)"

text \<open>An array given by its length and its entries: \<open>tab n f = [f 0, ..., f (n-1)]\<close>.\<close>

definition tab :: "nat \<Rightarrow> (nat \<Rightarrow> 'a) \<Rightarrow> 'a list" where
  "tab n f = map f [0..<n]"

section \<open>The descriptor module\<close>

datatype error = AssertionError | ZeroDivisionError

subsection \<open>numpy primitives\<close>

text \<open>
  \<open>np.arange(start, stop, step)\<close> on floats: \<open>ceil((stop - start) / step)\<close> values
  \<open>start + k * step\<close>, none when that number is not positive. The length is computed by
  a division of Python floats, which raises for a zero step.
\<close>

definition arange :: "real \<Rightarrow> real \<Rightarrow> real \<Rightarrow> error + real list" where
  "arange start stop step =
     (if step = 0 then Inl ZeroDivisionError
      else Inr (map (\<lambda>k. start + real k * step)
                  [0..<nat \<lceil>(stop - start) / step\<rceil>]))"

text \<open>\<open>np.linalg.norm\<close> of a one-dimensional array: the root of the sum of squares.\<close>

definition linalg_norm :: "fval list \<Rightarrow> fval" where
  "linalg_norm v = fsqrt (fsum (map fpow2 v))"

subsection \<open>The functions of the module\<close>

text \<open>
  \<open>smooth_cutoff\<close>, \<open>gaussian\<close> and \<open>gaussian_derivative\<close> are applied by numpy to every
  entry of their array argument; the definitions give the function of one entry.
  \<open>cutoff\<close>, \<open>alpha\<close> and \<open>beta\<close> are Python floats.
\<close>

definition smooth_cutoff :: "fval \<Rightarrow> real \<Rightarrow> fval" where
  "smooth_cutoff d cutoff = fpow2 (fsub (Fin 1) (fdiv d (Fin cutoff)))"

text \<open>
  \<open>2 * (-1 / cutoff) * (1 - d / cutoff)\<close>: the factor \<open>-1 / cutoff\<close> is a division of
  Python numbers, which raises for \<open>cutoff = 0\<close>; the result is one entry per entry of \<open>d\<close>.
\<close>

definition smooth_cutoff_derivative :: "fval list \<Rightarrow> real \<Rightarrow> error + fval list" where
  "smooth_cutoff_derivative d cutoff =
     (if cutoff = 0 then Inl ZeroDivisionError
      else Inr (map (\<lambda>dj. fmul (Fin (2 * (- 1 / cutoff)))
                              (fsub (Fin 1) (fdiv dj (Fin cutoff)))) d))"

definition gaussian :: "fval \<Rightarrow> real \<Rightarrow> fval" where
  "gaussian x beta = fexp (fmul (Fin (- 0.5)) (fpow2 (fdiv x (Fin beta))))"

definition gaussian_derivative :: "fval \<Rightarrow> real \<Rightarrow> fval" where
  "gaussian_derivative x beta = fmul (fneg (fdiv x (Fin (beta ^ 2)))) (gaussian x beta)"

definition radial_grid :: "real \<Rightarrow> real \<Rightarrow> error + real list" where
  "radial_grid cutoff alpha = arange 0 cutoff alpha"

text \<open>
  \<open>rbf_descriptor(r, cutoff, alpha, beta, normalized)\<close>. \<open>r\<close> is the array of the relative
  vectors, one row per neighbour. Each intermediate array is given by its shape and its
  entries, as numpy's broadcasting defines them:
  \<open>x[k, j] = grid[k] - d[j]\<close>, \<open>D_d_r[j, i] = r[j, i] / d[j]\<close>,
  \<open>D_c_r[j, i] = D_c_d[j] * D_d_r[j, i]\<close>, \<open>D_g_r[k, j, i] = -D_g_x[k, j] * D_d_r[j, i]\<close>,
  \<open>q[k, j, i] = D_g_r[k, j, i] * c[j] + g[k, j] * D_c_r[j, i]\<close>, and in the normalisation
  \<open>s[j, i] = sum_k p[k] * q[k, j, i]\<close>.
\<close>

definition rbf_descriptor ::
  "real list list \<Rightarrow> real \<Rightarrow> real \<Rightarrow> real \<Rightarrow> bool \<Rightarrow> error + (fval list \<times> fval list list list)"
where
  "rbf_descriptor r cutoff alpha beta normalized =
     (let n = length r;
          w = (\<lambda>j. length (r ! j));
          d = map (\<lambda>row. linalg_norm (map Fin row)) r
      in if \<not> list_all (\<lambda>dj. flt dj (Fin cutoff)) d then Inl AssertionError
      else
       (let c = map (\<lambda>dj. smooth_cutoff dj cutoff) d
        in (case radial_grid cutoff alpha of
              Inl e \<Rightarrow> Inl e
            | Inr grid \<Rightarrow>
       (let G = length grid;
            x = tab G (\<lambda>k. tab n (\<lambda>j. fsub (Fin (grid ! k)) (d ! j)));
            g = tab G (\<lambda>k. tab n (\<lambda>j. gaussian (x ! k ! j) beta));
            p = tab G (\<lambda>k. fsum (tab n (\<lambda>j. fmul (g ! k ! j) (c ! j))));
            D_d_r = tab n (\<lambda>j. tab (w j) (\<lambda>i. fdiv (Fin (r ! j ! i)) (d ! j)))
        in (case smooth_cutoff_derivative d cutoff of
              Inl e \<Rightarrow> Inl e
            | Inr D_c_d \<Rightarrow>
       (let D_c_r = tab n (\<lambda>j. tab (w j) (\<lambda>i. fmul (D_c_d ! j) (D_d_r ! j ! i)));
            D_g_x = tab G (\<lambda>k. tab n (\<lambda>j. gaussian_derivative (x ! k ! j) beta));
            D_g_r = tab G (\<lambda>k. tab n (\<lambda>j. tab (w j) (\<lambda>i.
                      fmul (fneg (D_g_x ! k ! j)) (D_d_r ! j ! i))));
            q = tab G (\<lambda>k. tab n (\<lambda>j. tab (w j) (\<lambda>i.
                      fadd (fmul (D_g_r ! k ! j ! i) (c ! j))
                           (fmul (g ! k ! j) (D_c_r ! j ! i)))))
        in if normalized then
            (let norm = linalg_norm p;
                 p1 = map (\<lambda>a. fdiv a norm) p;
                 q1 = map (map (map (\<lambda>a. fdiv a norm))) q;
                 s = tab n (\<lambda>j. tab (w j) (\<lambda>i.
                       fsum (tab G (\<lambda>k. fmul (p1 ! k) (q1 ! k ! j ! i)))));
                 q2 = tab G (\<lambda>k. tab n (\<lambda>j. tab (w j) (\<lambda>i.
                       fsub (q1 ! k ! j ! i) (fmul (p1 ! k) (s ! j ! i)))))
             in Inr (p1, q2))
           else Inr (p, q)))))))"

subsection \<open>The exponential in double precision\<close>

text \<open>
  \<open>fexp\<close> is the exact exponential and is never zero. \<open>np.exp\<close> on doubles underflows: a
  result of at most \<open>2 ^ (-1075)\<close>, half of the least positive double, is returned as
  \<open>0.0\<close>. \<open>fexp_double\<close> adds this one effect to the exact exponential; the rounding of
  larger results is not modelled.
\<close>

definition fexp_double :: "fval \<Rightarrow> fval" where
  "fexp_double x =
     (case x of
        Fin a \<Rightarrow> (if exp a \<le> 1 / 2 ^ 1075 then Fin 0 else Fin (exp a))
      | _ \<Rightarrow> fexp x)"

text \<open>
  \<open>gaussian\<close>, \<open>gaussian_derivative\<close> and \<open>rbf_descriptor\<close> once more, with the exponential
  \<open>ex\<close> as a parameter and nothing else changed: with \<open>fexp\<close> they are the definitions
  above, with \<open>fexp_double\<close> they show what underflow does to the descriptor.
\<close>

definition gaussian_with :: "(fval \<Rightarrow> fval) \<Rightarrow> fval \<Rightarrow> real \<Rightarrow> fval" where
  "gaussian_with ex x beta = ex (fmul (Fin (- 0.5)) (fpow2 (fdiv x (Fin beta))))"

definition gaussian_derivative_with :: "(fval \<Rightarrow> fval) \<Rightarrow> fval \<Rightarrow> real \<Rightarrow> fval" where
  "gaussian_derivative_with ex x beta =
     fmul (fneg (fdiv x (Fin (beta ^ 2)))) (gaussian_with ex x beta)"

definition rbf_descriptor_with ::
  "(fval \<Rightarrow> fval) \<Rightarrow> real list list \<Rightarrow> real \<Rightarrow> real \<Rightarrow> real \<Rightarrow> bool
     \<Rightarrow> error + (fval list \<times> fval list list list)"
where
  "rbf_descriptor_with ex r cutoff alpha beta normalized =
     (let n = length r;
          w = (\<lambda>j. length (r ! j));
          d = map (\<lambda>row. linalg_norm (map Fin row)) r
      in if \<not> list_all (\<lambda>dj. flt dj (Fin cutoff)) d then Inl AssertionError
      else
       (let c = map (\<lambda>dj. smooth_cutoff dj cutoff) d
        in (case radial_grid cutoff alpha of
              Inl e \<Rightarrow> Inl e
            | Inr grid \<Rightarrow>
       (let G = length grid;
            x = tab G (\<lambda>k. tab n (\<lambda>j. fsub (Fin (grid ! k)) (d ! j)));
            g = tab G (\<lambda>k. tab n (\<lambda>j. gaussian_with ex (x ! k ! j) beta));
            p = tab G (\<lambda>k. fsum (tab n (\<lambda>j. fmul (g ! k ! j) (c ! j))));
            D_d_r = tab n (\<lambda>j. tab (w j) (\<lambda>i. fdiv (Fin (r ! j ! i)) (d ! j)))
        in (case smooth_cutoff_derivative d cutoff of
              Inl e \<Rightarrow> Inl e
            | Inr D_c_d \<Rightarrow>
       (let D_c_r = tab n (\<lambda>j. tab (w j) (\<lambda>i. fmul (D_c_d ! j) (D_d_r ! j ! i)));
            D_g_x = tab G (\<lambda>k. tab n (\<lambda>j. gaussian_derivative_with ex (x ! k ! j) beta));
            D_g_r = tab G (\<lambda>k. tab n (\<lambda>j. tab (w j) (\<lambda>i.
                      fmul (fneg (D_g_x ! k ! j)) (D_d_r ! j ! i))));
            q = tab G (\<lambda>k. tab n (\<lambda>j. tab (w j) (\<lambda>i.
                      fadd (fmul (D_g_r ! k ! j ! i) (c ! j))
                           (fmul (g ! k ! j) (D_c_r ! j ! i)))))
        in if normalized then
            (let norm = linalg_norm p;
                 p1 = map (\<lambda>a. fdiv a norm) p;
                 q1 = map (map (map (\<lambda>a. fdiv a norm))) q;
                 s = tab n (\<lambda>j. tab (w j) (\<lambda>i.
                       fsum (tab G (\<lambda>k. fmul (p1 ! k) (q1 ! k ! j ! i)))));
                 q2 = tab G (\<lambda>k. tab n (\<lambda>j. tab (w j) (\<lambda>i.
                       fsub (q1 ! k ! j ! i) (fmul (p1 ! k) (s ! j ! i)))))
             in Inr (p1, q2))
           else Inr (p, q)))))))"

section \<open>Mathematical counterparts\<close>

text \<open>
  The real-valued functions the descriptor is compared with. \<open>distance\<close> is the Euclidean
  length of a relative vector; \<open>window_spec\<close> and \<open>gaussian_spec\<close> are the window and
  the kernel as the specification writes them, with their derivatives.
\<close>

definition distance :: "real list \<Rightarrow> real" where
  "distance row = sqrt (\<Sum>a\<leftarrow>row. a * a)"

definition window_spec :: "real \<Rightarrow> real \<Rightarrow> real" where
  "window_spec d cutoff = (1 - d / cutoff) ^ 2"

definition window_derivative_spec :: "real \<Rightarrow> real \<Rightarrow> real" where
  "window_derivative_spec d cutoff = - 2 / cutoff * (1 - d / cutoff)"

definition gaussian_spec :: "real \<Rightarrow> real \<Rightarrow> real" where
  "gaussian_spec x beta = exp (- 0.5 * (x / beta) ^ 2)"

definition gaussian_derivative_spec :: "real \<Rightarrow> real \<Rightarrow> real" where
  "gaussian_derivative_spec x beta = - (x / beta ^ 2) * gaussian_spec x beta"

text \<open>
  A neighbour set as the data model requires it: every relative vector has three
  components and a distance strictly between \<open>0\<close> and \<open>cutoff\<close>.
\<close>

definition valid_neighbors :: "real list list \<Rightarrow> real \<Rightarrow> bool" where
  "valid_neighbors r cutoff =
     (\<forall>row\<in>set r. length row = 3 \<and> 0 < distance row \<and> distance row < cutoff)"

text \<open>The number of grid points, and the raw feature and raw Jacobian entry at a grid point \<open>xk\<close>.\<close>

definition grid_size :: "real \<Rightarrow> real \<Rightarrow> nat" where
  "grid_size cutoff alpha = nat \<lceil>cutoff / alpha\<rceil>"

definition raw_p :: "real list list \<Rightarrow> real \<Rightarrow> real \<Rightarrow> real \<Rightarrow> real" where
  "raw_p r cutoff beta xk =
     (\<Sum>j<length r. gaussian_spec (xk - distance (r ! j)) beta * window_spec (distance (r ! j)) cutoff)"

definition raw_q :: "real list list \<Rightarrow> real \<Rightarrow> real \<Rightarrow> real \<Rightarrow> nat \<Rightarrow> nat \<Rightarrow> real" where
  "raw_q r cutoff beta xk j i =
     (let dj = distance (r ! j); u = r ! j ! i / dj
      in - gaussian_derivative_spec (xk - dj) beta * u * window_spec dj cutoff
         + gaussian_spec (xk - dj) beta * (window_derivative_spec dj cutoff * u))"

text \<open>The norm of the raw feature vector, and the entries of the normalised outputs.\<close>

definition raw_norm :: "real list list \<Rightarrow> real \<Rightarrow> real \<Rightarrow> real \<Rightarrow> real" where
  "raw_norm r cutoff alpha beta =
     sqrt (\<Sum>k<grid_size cutoff alpha.
             raw_p r cutoff beta (real k * alpha) * raw_p r cutoff beta (real k * alpha))"

definition unit_p :: "real list list \<Rightarrow> real \<Rightarrow> real \<Rightarrow> real \<Rightarrow> nat \<Rightarrow> real" where
  "unit_p r cutoff alpha beta k =
     raw_p r cutoff beta (real k * alpha) / raw_norm r cutoff alpha beta"

definition scaled_q :: "real list list \<Rightarrow> real \<Rightarrow> real \<Rightarrow> real \<Rightarrow> nat \<Rightarrow> nat \<Rightarrow> nat \<Rightarrow> real" where
  "scaled_q r cutoff alpha beta k j i =
     raw_q r cutoff beta (real k * alpha) j i / raw_norm r cutoff alpha beta"

definition unit_q :: "real list list \<Rightarrow> real \<Rightarrow> real \<Rightarrow> real \<Rightarrow> nat \<Rightarrow> nat \<Rightarrow> nat \<Rightarrow> real" where
  "unit_q r cutoff alpha beta k j i =
     scaled_q r cutoff alpha beta k j i
     - unit_p r cutoff alpha beta k *
       (\<Sum>k'<grid_size cutoff alpha.
           unit_p r cutoff alpha beta k' * scaled_q r cutoff alpha beta k' j i)"

text \<open>
  The normalisation step of \<open>rbf_descriptor\<close> on its own, as a function of the raw
  outputs; \<open>n\<close> and \<open>w\<close> are the number of neighbours and the width of each row.
\<close>

definition normalize_out ::
  "nat \<Rightarrow> (nat \<Rightarrow> nat) \<Rightarrow> fval list \<times> fval list list list \<Rightarrow> fval list \<times> fval list list list"
where
  "normalize_out n w pq =
     (let p = fst pq; q = snd pq; G = length p;
          norm = linalg_norm p;
          p1 = map (\<lambda>a. fdiv a norm) p;
          q1 = map (map (map (\<lambda>a. fdiv a norm))) q;
          s = tab n (\<lambda>j. tab (w j) (\<lambda>i. fsum (tab G (\<lambda>k. fmul (p1 ! k) (q1 ! k ! j ! i)))));
          q2 = tab G (\<lambda>k. tab n (\<lambda>j. tab (w j) (\<lambda>i.
                 fsub (q1 ! k ! j ! i) (fmul (p1 ! k) (s ! j ! i)))))
      in (p1, q2))"

text \<open>
  The \<open>k\<close>-th feature of an outcome of \<open>rbf_descriptor\<close> as a real number (zero when the
  call raised, when there is no such entry or when the entry is not finite): the function
  whose derivative the Jacobian is compared with.
\<close>

definition feature_value :: "error + (fval list \<times> fval list list list) \<Rightarrow> nat \<Rightarrow> real" where
  "feature_value res k =
     (case res of
        Inl e \<Rightarrow> 0
      | Inr pq \<Rightarrow>
          (if k < length (fst pq) then (case fst pq ! k of Fin a \<Rightarrow> a | _ \<Rightarrow> 0) else 0))"

text \<open>Matrices acting on relative vectors; a rotation is an orthogonal matrix.\<close>

definition dot :: "real list \<Rightarrow> real list \<Rightarrow> real" where
  "dot u v = (\<Sum>(a, b)\<leftarrow>zip u v. a * b)"

definition mat_vec :: "real list list \<Rightarrow> real list \<Rightarrow> real list" where
  "mat_vec R v = map (\<lambda>row. dot row v) R"

definition column :: "real list list \<Rightarrow> nat \<Rightarrow> real list" where
  "column R i = map (\<lambda>row. row ! i) R"

definition orthogonal_matrix :: "real list list \<Rightarrow> bool" where
  "orthogonal_matrix R =
     (length R = 3 \<and> (\<forall>row\<in>set R. length row = 3) \<and>
      (\<forall>i<3. \<forall>j<3. dot (column R i) (column R j) = (if i = j then 1 else 0)))"

section \<open>Auxiliary facts\<close>

subsection \<open>Arrays and finite entries\<close>

lemma length_tab [simp]: "length (tab n f) = n" by (simp add: tab_def)

lemma nth_tab [simp]: "i < n \<Longrightarrow> tab n f ! i = f i" by (simp add: tab_def)

lemma tab_cong: "n = m \<Longrightarrow> (\<And>i. i < m \<Longrightarrow> f i = g i) \<Longrightarrow> tab n f = tab m g"
  by (simp add: tab_def)

lemma map_tab [simp]: "map h (tab n f) = tab n (\<lambda>i. h (f i))"
  by (simp add: tab_def)

lemma tab_const: "tab n (\<lambda>k. c) = replicate n c"
  by (simp add: tab_def map_replicate_const)

lemma foldr_fadd_Fin: "foldr fadd (map (\<lambda>j. Fin (f j)) xs) (Fin z) = Fin (sum_list (map f xs) + z)"
  by (induction xs) simp_all

lemma fsum_tab_Fin: "fsum (tab n (\<lambda>j. Fin (f j))) = Fin (\<Sum>j<n. f j)"
  by (simp add: fsum_def tab_def foldr_fadd_Fin interv_sum_list_conv_sum_set_nat atLeast0LessThan)

lemma fsum_map_Fin: "fsum (map Fin xs) = Fin (sum_list xs)"
  using foldr_fadd_Fin [of "\<lambda>a. a" xs 0] by (simp add: fsum_def)

lemma fpow2_Fin [simp]: "fpow2 (Fin a) = Fin (a * a)" by (simp add: fpow2_def)

lemma fsub_Fin [simp]: "fsub (Fin a) (Fin b) = Fin (a - b)" by (simp add: fsub_def)

text \<open>
  On finite inputs the norm of the module is the Euclidean distance, and the window and
  the kernel of the module are the functions of the specification.
\<close>

lemma linalg_norm_Fin: "linalg_norm (map Fin row) = Fin (distance row)"
proof -
  have "map fpow2 (map Fin row) = map Fin (map (\<lambda>a. a * a) row)" by simp
  moreover have "0 \<le> (\<Sum>a\<leftarrow>row. a * a)" by (rule sum_list_nonneg) auto
  ultimately show ?thesis
    by (simp only: linalg_norm_def fsum_map_Fin distance_def fsqrt.simps if_True)
qed

lemma linalg_norm_tab_Fin:
  "linalg_norm (tab n (\<lambda>k. Fin (f k))) = Fin (sqrt (\<Sum>k<n. f k * f k))"
proof -
  have "0 \<le> (\<Sum>k<n. f k * f k)" by (rule sum_nonneg) simp
  then show ?thesis by (simp add: linalg_norm_def fsum_tab_Fin)
qed

lemma linalg_norm_zeros: "linalg_norm (replicate n (Fin 0)) = Fin 0"
  using linalg_norm_tab_Fin [of n "\<lambda>k. 0"] by (simp add: tab_const)

lemma smooth_cutoff_Fin: "cutoff \<noteq> 0 \<Longrightarrow> smooth_cutoff (Fin d) cutoff = Fin (window_spec d cutoff)"
  by (simp add: smooth_cutoff_def window_spec_def power2_eq_square)

lemma gaussian_Fin: "beta \<noteq> 0 \<Longrightarrow> gaussian (Fin x) beta = Fin (gaussian_spec x beta)"
  by (simp add: gaussian_def gaussian_spec_def power2_eq_square)

lemma gaussian_derivative_Fin:
  "beta \<noteq> 0 \<Longrightarrow> gaussian_derivative (Fin x) beta = Fin (gaussian_derivative_spec x beta)"
  by (simp add: gaussian_derivative_def gaussian_derivative_spec_def gaussian_Fin)

lemma radial_grid_ok:
  "alpha \<noteq> 0 \<Longrightarrow> radial_grid cutoff alpha = Inr (tab (grid_size cutoff alpha) (\<lambda>k. real k * alpha))"
  by (simp add: radial_grid_def arange_def tab_def grid_size_def)

subsection \<open>The outputs on a valid neighbour set\<close>

text \<open>
  When no divisor is zero, every entry of the raw outputs is finite and given by \<open>raw_p\<close>
  and \<open>raw_q\<close>; the normalised outputs are given by \<open>unit_p\<close> and \<open>unit_q\<close>.
\<close>

lemma valid_neighborsD:
  "valid_neighbors r cutoff \<Longrightarrow> \<forall>row\<in>set r. distance row \<noteq> 0 \<and> distance row < cutoff"
  by (auto simp: valid_neighbors_def)

lemma rbf_raw:
  assumes "alpha \<noteq> 0" "beta \<noteq> 0" "cutoff \<noteq> 0"
    and "\<forall>row\<in>set r. distance row \<noteq> 0 \<and> distance row < cutoff"
  shows "rbf_descriptor r cutoff alpha beta False =
    Inr (tab (grid_size cutoff alpha) (\<lambda>k. Fin (raw_p r cutoff beta (real k * alpha))),
         tab (grid_size cutoff alpha) (\<lambda>k. tab (length r) (\<lambda>j. tab (length (r ! j)) (\<lambda>i.
            Fin (raw_q r cutoff beta (real k * alpha) j i)))))"
proof -
  have la: "list_all (\<lambda>dj. flt dj (Fin cutoff)) (map (\<lambda>row. linalg_norm (map Fin row)) r)"
    using assms(4) by (simp add: list_all_iff linalg_norm_Fin)
  have dn: "\<And>j. j < length r \<Longrightarrow> distance (r ! j) \<noteq> 0" using assms(4) by simp
  show ?thesis
    using assms(1-3) la dn
    apply (simp add: rbf_descriptor_def Let_def radial_grid_ok smooth_cutoff_derivative_def
        linalg_norm_Fin smooth_cutoff_Fin gaussian_Fin gaussian_derivative_Fin fsum_tab_Fin
        raw_p_def
        cong: tab_cong)
    apply (intro tab_cong refl)
    apply (simp add: raw_q_def window_derivative_spec_def Let_def field_simps)
    done
qed

lemma rbf_True_via_False:
  "rbf_descriptor r cutoff alpha beta True =
     map_sum id (normalize_out (length r) (\<lambda>j. length (r ! j))) (rbf_descriptor r cutoff alpha beta False)"
  by (simp add: rbf_descriptor_def normalize_out_def Let_def split: sum.splits)

lemma rbf_normalized:
  assumes "alpha \<noteq> 0" "beta \<noteq> 0" "cutoff \<noteq> 0"
    and "\<forall>row\<in>set r. distance row \<noteq> 0 \<and> distance row < cutoff"
    and "raw_norm r cutoff alpha beta \<noteq> 0"
  shows "rbf_descriptor r cutoff alpha beta True =
    Inr (tab (grid_size cutoff alpha) (\<lambda>k. Fin (unit_p r cutoff alpha beta k)),
         tab (grid_size cutoff alpha) (\<lambda>k. tab (length r) (\<lambda>j. tab (length (r ! j)) (\<lambda>i.
            Fin (unit_q r cutoff alpha beta k j i)))))"
proof -
  have nz: "sqrt (\<Sum>k<grid_size cutoff alpha.
             raw_p r cutoff beta (real k * alpha) * raw_p r cutoff beta (real k * alpha)) \<noteq> 0"
    using assms(5) by (simp add: raw_norm_def)
  show ?thesis
    using nz
    by (simp add: rbf_True_via_False rbf_raw [OF assms(1-4)] normalize_out_def Let_def
        linalg_norm_tab_Fin fsum_tab_Fin unit_p_def unit_q_def scaled_q_def raw_norm_def
        cong: tab_cong del: real_sqrt_eq_zero_cancel_iff)
qed

lemma rbf_returns:
  assumes "alpha \<noteq> 0" "cutoff \<noteq> 0" "\<forall>row\<in>set r. distance row < cutoff"
  shows "\<exists>p q. rbf_descriptor r cutoff alpha beta normalized = Inr (p, q)"
  using assms
  by (simp add: rbf_descriptor_def Let_def radial_grid_ok smooth_cutoff_derivative_def
      list_all_iff linalg_norm_Fin)

subsection \<open>Positivity and the algebra of the normalisation\<close>

lemma gaussian_spec_pos: "0 < gaussian_spec x beta"
  by (simp add: gaussian_spec_def)

lemma window_spec_pos: "cutoff \<noteq> 0 \<Longrightarrow> d \<noteq> cutoff \<Longrightarrow> 0 < window_spec d cutoff"
  by (simp add: window_spec_def)

lemma raw_p_pos:
  assumes "r \<noteq> []" "cutoff \<noteq> 0" "\<forall>row\<in>set r. distance row \<noteq> 0 \<and> distance row < cutoff"
  shows "0 < raw_p r cutoff beta xk"
  unfolding raw_p_def
proof (rule sum_pos)
  show "finite {..<length r}" by simp
  show "{..<length r} \<noteq> {}" using assms(1) by auto
next
  fix j assume "j \<in> {..<length r}"
  then have "r ! j \<in> set r" by simp
  then have "distance (r ! j) \<noteq> cutoff" using assms(3) by auto
  then show "0 < gaussian_spec (xk - distance (r ! j)) beta * window_spec (distance (r ! j)) cutoff"
    using assms(2) by (simp add: gaussian_spec_pos window_spec_pos)
qed

lemma grid_size_pos: "0 < alpha \<Longrightarrow> 0 < cutoff \<Longrightarrow> 0 < grid_size cutoff alpha"
  by (simp add: grid_size_def)

lemma raw_norm_pos:
  assumes "0 < grid_size cutoff alpha" "r \<noteq> []" "cutoff \<noteq> 0"
    "\<forall>row\<in>set r. distance row \<noteq> 0 \<and> distance row < cutoff"
  shows "0 < raw_norm r cutoff alpha beta"
proof -
  have "0 < (\<Sum>k<grid_size cutoff alpha.
             raw_p r cutoff beta (real k * alpha) * raw_p r cutoff beta (real k * alpha))"
  proof (rule sum_pos)
    show "{..<grid_size cutoff alpha} \<noteq> {}" using assms(1) by auto
  next
    fix k
    show "0 < raw_p r cutoff beta (real k * alpha) * raw_p r cutoff beta (real k * alpha)"
      using raw_p_pos [OF assms(2-4)] by simp
  qed simp
  then show ?thesis by (simp add: raw_norm_def)
qed

lemma unit_p_norm:
  assumes "0 < raw_norm r cutoff alpha beta"
  shows "(\<Sum>k<grid_size cutoff alpha. unit_p r cutoff alpha beta k * unit_p r cutoff alpha beta k) = 1"
proof -
  let ?G = "grid_size cutoff alpha"
  let ?P = "\<lambda>k. raw_p r cutoff beta (real k * alpha)"
  let ?N = "raw_norm r cutoff alpha beta"
  have S: "0 \<le> (\<Sum>k<?G. ?P k * ?P k)" by (rule sum_nonneg) simp
  have N2: "?N * ?N = (\<Sum>k<?G. ?P k * ?P k)"
    using S by (simp add: raw_norm_def)
  have "(\<Sum>k<?G. unit_p r cutoff alpha beta k * unit_p r cutoff alpha beta k)
      = (\<Sum>k<?G. ?P k * ?P k / (?N * ?N))"
    by (simp add: unit_p_def)
  also have "\<dots> = (\<Sum>k<?G. ?P k * ?P k) / (?N * ?N)"
    by (simp add: sum_divide_distrib)
  also have "\<dots> = 1"
  proof -
    have "?N * ?N \<noteq> 0" using assms by simp
    then have "?N * ?N / (?N * ?N) = 1" by (rule divide_self)
    then show ?thesis by (simp only: N2)
  qed
  finally show ?thesis .
qed

lemma unit_q_orthogonal:
  assumes "0 < raw_norm r cutoff alpha beta"
  shows "(\<Sum>k<grid_size cutoff alpha. unit_p r cutoff alpha beta k * unit_q r cutoff alpha beta k j i) = 0"
proof -
  let ?G = "grid_size cutoff alpha"
  let ?u = "unit_p r cutoff alpha beta"
  let ?s = "\<lambda>k. scaled_q r cutoff alpha beta k j i"
  let ?T = "\<Sum>k<?G. ?u k * ?s k"
  have "(\<Sum>k<?G. ?u k * unit_q r cutoff alpha beta k j i)
      = (\<Sum>k<?G. ?u k * ?s k - (?u k * ?u k) * ?T)"
    by (simp add: unit_q_def algebra_simps)
  also have "\<dots> = ?T - (\<Sum>k<?G. ?u k * ?u k) * ?T"
    by (simp add: sum_subtractf sum_distrib_right)
  also have "\<dots> = 0" by (simp add: unit_p_norm [OF assms])
  finally show ?thesis .
qed

subsection \<open>Derivatives\<close>

lemma sum_list_map_update:
  fixes f :: "'a \<Rightarrow> real"
  shows "i < length xs \<Longrightarrow> sum_list (map f (xs[i := t])) = sum_list (map f xs) - f (xs ! i) + f t"
proof (induction xs arbitrary: i)
  case Nil
  then show ?case by simp
next
  case (Cons a xs)
  then show ?case by (cases i) simp_all
qed

lemma distance_update:
  "i < length row \<Longrightarrow>
   distance (row[i := t]) = sqrt (t * t + ((\<Sum>a\<leftarrow>row. a * a) - row ! i * row ! i))"
  by (simp add: distance_def sum_list_map_update algebra_simps)

lemma distance_nonneg: "0 \<le> distance row"
  unfolding distance_def by (intro real_sqrt_ge_zero sum_list_nonneg) auto

lemma DERIV_distance:
  assumes "i < length row" "distance row \<noteq> 0"
  shows "DERIV (\<lambda>t. distance (row[i := t])) (row ! i) :> row ! i / distance row"
proof -
  let ?S = "(\<Sum>a\<leftarrow>row. a * a)"
  have S: "0 < ?S"
  proof -
    have "0 \<le> ?S" by (rule sum_list_nonneg) auto
    moreover have "?S \<noteq> 0" using assms(2) by (auto simp: distance_def)
    ultimately show ?thesis by simp
  qed
  have "DERIV (\<lambda>t. sqrt (t * t + (?S - row ! i * row ! i))) (row ! i) :> row ! i / sqrt ?S"
    using S by (auto intro!: derivative_eq_intros simp: field_simps)
  moreover have "(\<lambda>t. distance (row[i := t])) = (\<lambda>t. sqrt (t * t + (?S - row ! i * row ! i)))"
    by (rule ext) (simp add: distance_update assms(1))
  moreover have "distance row = sqrt ?S" by (simp add: distance_def)
  ultimately show ?thesis by simp
qed

lemma DERIV_gaussian_spec:
  "beta \<noteq> 0 \<Longrightarrow> DERIV (\<lambda>x. gaussian_spec x beta) x :> gaussian_derivative_spec x beta"
  unfolding gaussian_spec_def gaussian_derivative_spec_def
  by (auto intro!: derivative_eq_intros simp: field_simps power2_eq_square)

lemma DERIV_window_spec:
  "cutoff \<noteq> 0 \<Longrightarrow> DERIV (\<lambda>d. window_spec d cutoff) d :> window_derivative_spec d cutoff"
  unfolding window_spec_def window_derivative_spec_def
  by (auto intro!: derivative_eq_intros simp: field_simps power2_eq_square)

lemma DERIV_term:
  assumes "i < length row" "distance row \<noteq> 0" "beta \<noteq> 0" "cutoff \<noteq> 0"
  shows "DERIV (\<lambda>t. gaussian_spec (xk - distance (row[i := t])) beta * window_spec (distance (row[i := t])) cutoff)
           (row ! i) :>
         - gaussian_derivative_spec (xk - distance row) beta * (row ! i / distance row) * window_spec (distance row) cutoff
         + gaussian_spec (xk - distance row) beta * (window_derivative_spec (distance row) cutoff * (row ! i / distance row))"
proof -
  have id: "row[i := row ! i] = row" by simp
  note d = DERIV_distance [OF assms(1,2)]
  have g: "DERIV (\<lambda>t. gaussian_spec (xk - distance (row[i := t])) beta) (row ! i) :>
      gaussian_derivative_spec (xk - distance row) beta * (0 - row ! i / distance row)"
    using DERIV_chain2 [OF DERIV_gaussian_spec [OF assms(3)] DERIV_diff [OF DERIV_const [of xk] d]]
    by (simp add: id)
  have w: "DERIV (\<lambda>t. window_spec (distance (row[i := t])) cutoff) (row ! i) :>
      window_derivative_spec (distance row) cutoff * (row ! i / distance row)"
    using DERIV_chain2 [OF DERIV_window_spec [OF assms(4)] d] by (simp add: id)
  show ?thesis
    using DERIV_mult [OF g w] by (simp add: id algebra_simps)
qed

lemma raw_p_update:
  assumes "j < length r"
  shows "raw_p (r[j := row]) cutoff beta xk =
     gaussian_spec (xk - distance row) beta * window_spec (distance row) cutoff
     + (\<Sum>j'\<in>{..<length r} - {j}.
          gaussian_spec (xk - distance (r ! j')) beta * window_spec (distance (r ! j')) cutoff)"
proof -
  have "raw_p (r[j := row]) cutoff beta xk =
      (\<Sum>j'\<in>{..<length r}. gaussian_spec (xk - distance (r[j := row] ! j')) beta
          * window_spec (distance (r[j := row] ! j')) cutoff)"
    by (simp add: raw_p_def)
  also have "\<dots> = gaussian_spec (xk - distance (r[j := row] ! j)) beta
          * window_spec (distance (r[j := row] ! j)) cutoff
      + (\<Sum>j'\<in>{..<length r} - {j}. gaussian_spec (xk - distance (r[j := row] ! j')) beta
          * window_spec (distance (r[j := row] ! j')) cutoff)"
    using assms by (intro sum.remove) simp_all
  also have "\<dots> = gaussian_spec (xk - distance row) beta * window_spec (distance row) cutoff
     + (\<Sum>j'\<in>{..<length r} - {j}.
          gaussian_spec (xk - distance (r ! j')) beta * window_spec (distance (r ! j')) cutoff)"
    using assms by (auto intro!: sum.cong)
  finally show ?thesis .
qed

lemma DERIV_raw_p:
  assumes "j < length r" "i < length (r ! j)" "distance (r ! j) \<noteq> 0" "beta \<noteq> 0" "cutoff \<noteq> 0"
  shows "DERIV (\<lambda>t. raw_p (r[j := (r ! j)[i := t]]) cutoff beta xk) (r ! j ! i)
           :> raw_q r cutoff beta xk j i"
proof -
  have "DERIV (\<lambda>t. gaussian_spec (xk - distance ((r ! j)[i := t])) beta
                     * window_spec (distance ((r ! j)[i := t])) cutoff
                  + (\<Sum>j'\<in>{..<length r} - {j}.
          gaussian_spec (xk - distance (r ! j')) beta * window_spec (distance (r ! j')) cutoff))
          (r ! j ! i) :> raw_q r cutoff beta xk j i + 0"
    unfolding raw_q_def Let_def
    by (intro DERIV_add DERIV_term DERIV_const assms)
  then show ?thesis
    by (simp add: raw_p_update [OF assms(1)])
qed

lemma eventually_valid_update:
  assumes "j < length r" "i < length (r ! j)"
    and "\<forall>row\<in>set r. distance row \<noteq> 0 \<and> distance row < cutoff"
  shows "eventually (\<lambda>t. \<forall>row\<in>set (r[j := (r ! j)[i := t]]). distance row \<noteq> 0 \<and> distance row < cutoff)
           (nhds (r ! j ! i))"
proof -
  let ?dl = "\<lambda>t. distance ((r ! j)[i := t])"
  let ?t0 = "r ! j ! i"
  have rj: "r ! j \<in> set r" using assms(1) by simp
  then have nz: "distance (r ! j) \<noteq> 0" and lt: "distance (r ! j) < cutoff"
    using assms(3) by auto
  have pos: "0 < distance (r ! j)" using nz distance_nonneg [of "r ! j"] by simp
  have at0: "?dl ?t0 = distance (r ! j)" by simp
  have "isCont ?dl ?t0"
    by (rule DERIV_isCont [OF DERIV_distance [OF assms(2) nz]])
  then have "?dl \<midarrow>?t0\<rightarrow> ?dl ?t0"
    unfolding isCont_def .
  then have "(?dl \<longlongrightarrow> ?dl ?t0) (nhds ?t0)"
    using tendsto_at_iff_tendsto_nhds [of ?dl ?t0] by blast
  then have tn: "(?dl \<longlongrightarrow> distance (r ! j)) (nhds ?t0)"
    by (simp only: at0)
  have e1: "eventually (\<lambda>t. 0 < ?dl t) (nhds ?t0)"
    by (rule order_tendstoD(1) [OF tn pos])
  have e2: "eventually (\<lambda>t. ?dl t < cutoff) (nhds ?t0)"
    by (rule order_tendstoD(2) [OF tn lt])
  show ?thesis
    using e1 e2
  proof eventually_elim
    case (elim t)
    have "set (r[j := (r ! j)[i := t]]) \<subseteq> insert ((r ! j)[i := t]) (set r)"
      by (rule set_update_subset_insert)
    then show ?case using elim assms(3) by auto
  qed
qed

subsection \<open>Rotations\<close>

lemma length3E:
  assumes "length xs = 3"
  obtains a b c where "xs = [a, b, c]"
proof -
  from assms obtain a ys where 1: "xs = a # ys" "length ys = 2" by (cases xs) auto
  then obtain b zs where 2: "ys = b # zs" "length zs = 1" by (cases ys) auto
  then obtain c where "zs = [c]" by (cases zs) auto
  with 1 2 that show thesis by simp
qed

lemma distance_mat_vec:
  assumes "orthogonal_matrix R" "length v = 3"
  shows "distance (mat_vec R v) = distance v"
proof -
  from assms(2) obtain x y z where v: "v = [x, y, z]" by (rule length3E)
  from assms(1) have "length R = 3" by (simp add: orthogonal_matrix_def)
  then obtain r1 r2 r3 where R: "R = [r1, r2, r3]" by (rule length3E)
  from assms(1) R have "length r1 = 3" "length r2 = 3" "length r3 = 3"
    by (simp_all add: orthogonal_matrix_def)
  then obtain a b c d e f g h i where
    rows: "r1 = [a, b, c]" "r2 = [d, e, f]" "r3 = [g, h, i]"
    by (metis length3E)
  have o: "\<And>m n. m < 3 \<Longrightarrow> n < 3 \<Longrightarrow> dot (column R m) (column R n) = (if m = n then 1 else 0)"
    using assms(1) by (simp add: orthogonal_matrix_def)
  have e00: "a * a + d * d + g * g = 1" using o [of 0 0] by (simp add: R rows dot_def column_def)
  have e11: "b * b + e * e + h * h = 1" using o [of 1 1] by (simp add: R rows dot_def column_def)
  have e22: "c * c + f * f + i * i = 1" using o [of 2 2] by (simp add: R rows dot_def column_def)
  have e01: "a * b + d * e + g * h = 0" using o [of 0 1] by (simp add: R rows dot_def column_def)
  have e02: "a * c + d * f + g * i = 0" using o [of 0 2] by (simp add: R rows dot_def column_def)
  have e12: "b * c + e * f + h * i = 0" using o [of 1 2] by (simp add: R rows dot_def column_def)
  have "(a * x + b * y + c * z) * (a * x + b * y + c * z)
      + (d * x + e * y + f * z) * (d * x + e * y + f * z)
      + (g * x + h * y + i * z) * (g * x + h * y + i * z)
      = x * x * (a * a + d * d + g * g) + y * y * (b * b + e * e + h * h)
        + z * z * (c * c + f * f + i * i)
        + 2 * x * y * (a * b + d * e + g * h) + 2 * x * z * (a * c + d * f + g * i)
        + 2 * y * z * (b * c + e * f + h * i)"
    by (simp add: algebra_simps)
  also have "\<dots> = x * x + y * y + z * z"
    by (simp only: e00 e11 e22 e01 e02 e12)
  finally show ?thesis
    by (simp add: distance_def mat_vec_def dot_def R rows v add.assoc)
qed

lemma rbf_p_distances:
  assumes "map distance r = map distance r'"
  shows "map_sum id fst (rbf_descriptor r cutoff alpha beta normalized)
       = map_sum id fst (rbf_descriptor r' cutoff alpha beta normalized)"
proof -
  have l: "length r = length r'" using assms by (rule map_eq_imp_length_eq)
  have d: "map (\<lambda>row. Fin (distance row)) r = map (\<lambda>row. Fin (distance row)) r'"
  proof -
    have "map Fin (map distance r) = map Fin (map distance r')" by (simp only: assms)
    then show ?thesis by (simp add: comp_def)
  qed
  show ?thesis
    by (simp add: rbf_descriptor_def Let_def linalg_norm_Fin l d split: sum.splits)
qed

subsection \<open>Special values and examples\<close>

lemma fmul_NaN [simp]: "fmul a NaN = NaN" "fmul NaN a = NaN"
  by (cases a; simp)+

lemma fadd_NaN [simp]: "fadd a NaN = NaN"
  by (cases a; simp)

lemma fsub_NaN [simp]: "fsub NaN a = NaN"
  by (simp add: fsub_def)

lemma valid_example: "valid_neighbors [[1, 0, 0]] 3"
  by (simp add: valid_neighbors_def distance_def)

lemma orthogonal_example: "orthogonal_matrix [[0, - 1, 0], [1, 0, 0], [0, 0, 1]]"
  by (simp add: orthogonal_matrix_def dot_def column_def All_less_Suc numeral_3_eq_3)

subsection \<open>Underflow\<close>

lemma gaussian_with_fexp: "gaussian_with fexp = gaussian"
  by (intro ext) (simp add: gaussian_with_def gaussian_def)

lemma gaussian_derivative_with_fexp: "gaussian_derivative_with fexp = gaussian_derivative"
  by (intro ext) (simp add: gaussian_derivative_with_def gaussian_derivative_def gaussian_with_fexp)

lemma rbf_descriptor_with_fexp:
  "rbf_descriptor_with fexp r cutoff alpha beta normalized = rbf_descriptor r cutoff alpha beta normalized"
  by (simp only: rbf_descriptor_with_def rbf_descriptor_def gaussian_with_fexp
      gaussian_derivative_with_fexp)

lemma exp_underflow:
  fixes a :: real
  assumes "a \<le> - 1075"
  shows "exp a \<le> 1 / 2 ^ 1075"
proof -
  have "(2::real) \<le> exp 1" using exp_ge_add_one_self [of "1::real"] by simp
  then have "(2::real) ^ 1075 \<le> exp 1 ^ 1075" by (rule power_mono) simp
  also have "exp (1::real) ^ 1075 = exp (of_nat 1075 * 1)" by (rule exp_of_nat_mult [symmetric])
  finally have le: "(2::real) ^ 1075 \<le> exp 1075" by simp
  have "exp a \<le> exp (- 1075)" using assms by simp
  also have "\<dots> = 1 / exp 1075" by (simp add: exp_minus inverse_eq_divide)
  also have "\<dots> \<le> 1 / 2 ^ 1075" using le by (intro divide_left_mono) simp_all
  finally show ?thesis .
qed

lemma fexp_double_underflow: "a \<le> - 1075 \<Longrightarrow> fexp_double (Fin a) = Fin 0"
  by (simp only: fexp_double_def fval.case exp_underflow if_True)

lemma gaussian_double_underflow:
  assumes "x \<le> - (1/4)"
  shows "gaussian_with fexp_double (Fin x) (1/256) = Fin 0"
proof -
  have "64 \<le> - (x * 256)" using assms by simp
  then have "64 * 64 \<le> (- (x * 256)) * (- (x * 256))"
    by (intro mult_mono) simp_all
  then have "- 0.5 * ((x / (1/256)) * (x / (1/256))) \<le> - 1075" by simp
  then have "fexp_double (Fin (- 0.5 * ((x / (1/256)) * (x / (1/256))))) = Fin 0"
    by (rule fexp_double_underflow)
  then show ?thesis by (simp add: gaussian_with_def)
qed

lemma distance_axis: "distance [a, 0, 0] = \<bar>a\<bar>"
  by (simp add: distance_def)

lemma valid_underflow_example: "valid_neighbors [[11/4, 0, 0]] 3"
  by (simp add: valid_neighbors_def distance_axis)

lemma upt6: "[0..<6] = [0, 1, 2, 3, 4, 5]" by (simp add: upt_rec)

section \<open>The claims\<close>

subsection \<open>C1: the raw Jacobian is the derivative of the raw feature\<close>

text \<open>
  Claim C1. For positive hyperparameters and every neighbour set whose distances all lie
  strictly between \<open>0\<close> and \<open>cutoff\<close>, the call without normalisation returns \<open>(p, q)\<close>,
  and every entry \<open>q[k, j, i]\<close> of the raw Jacobian is a finite number \<open>D\<close> that is the
  derivative of the raw feature \<open>p[k]\<close> with respect to coordinate \<open>i\<close> of the relative
  vector \<open>r[j]\<close>: the derivative at \<open>r[j, i]\<close> of the function that replaces this one
  coordinate by \<open>t\<close>, runs \<open>rbf_descriptor\<close> and reads feature \<open>k\<close>.
\<close>

theorem raw_jacobian_is_derivative:
  assumes "0 < cutoff" "0 < alpha" "0 < beta" "valid_neighbors r cutoff"
  shows "\<exists>p q. rbf_descriptor r cutoff alpha beta False = Inr (p, q)
           \<and> (\<forall>k<length p. \<forall>j<length r. \<forall>i<3. \<exists>D. q ! k ! j ! i = Fin D
                 \<and> DERIV (\<lambda>t. feature_value
                             (rbf_descriptor (r[j := (r ! j)[i := t]]) cutoff alpha beta False) k)
                     (r ! j ! i) :> D)"
proof -
  have a: "alpha \<noteq> 0" "beta \<noteq> 0" "cutoff \<noteq> 0" using assms by simp_all
  note v = valid_neighborsD [OF assms(4)]
  let ?G = "grid_size cutoff alpha"
  have len: "\<And>j. j < length r \<Longrightarrow> length (r ! j) = 3"
    using assms(4) by (simp add: valid_neighbors_def)
  have D: "DERIV (\<lambda>t. feature_value
                (rbf_descriptor (r[j := (r ! j)[i := t]]) cutoff alpha beta False) k)
              (r ! j ! i) :> raw_q r cutoff beta (real k * alpha) j i"
    if k: "k < ?G" and j: "j < length r" and i: "i < 3" for k j i
  proof -
    have i': "i < length (r ! j)" using len [OF j] i by simp
    have dj: "distance (r ! j) \<noteq> 0" using v j by simp
    have ev: "eventually (\<lambda>t. feature_value
                (rbf_descriptor (r[j := (r ! j)[i := t]]) cutoff alpha beta False) k
              = raw_p (r[j := (r ! j)[i := t]]) cutoff beta (real k * alpha)) (nhds (r ! j ! i))"
      using eventually_valid_update [OF j i' v]
    proof eventually_elim
      case (elim t)
      show ?case
        by (simp add: rbf_raw [OF a elim] feature_value_def k)
    qed
    show ?thesis
      using DERIV_raw_p [OF j i' dj a(2) a(3), of "real k * alpha"]
        DERIV_cong_ev [OF refl ev refl] by blast
  qed
  show ?thesis
    using D by (simp add: rbf_raw [OF a v] len)
qed

theorem raw_jacobian_is_derivative_witness:
  "(0::real) < 3 \<and> (0::real) < 1/2 \<and> valid_neighbors [[1, 0, 0]] 3 \<and>
   (\<exists>p q. rbf_descriptor [[1, 0, 0]] 3 (1/2) (1/2) False = Inr (p, q)
      \<and> (\<forall>k<length p. \<forall>j<length [[1, 0, 0::real]]. \<forall>i<3. \<exists>D. q ! k ! j ! i = Fin D
            \<and> DERIV (\<lambda>t. feature_value
                        (rbf_descriptor ([[1, 0, 0]][j := ([[1, 0, 0]] ! j)[i := t]]) 3 (1/2) (1/2) False) k)
                ([[1, 0, 0]] ! j ! i) :> D))"
proof -
  have h: "(0::real) < 3" "(0::real) < 1/2" by simp_all
  show ?thesis
    using raw_jacobian_is_derivative [OF h(1) h(2) h(2) valid_example] h valid_example by blast
qed

subsection \<open>C2: the normalised descriptor has unit norm\<close>

text \<open>
  Claim C2. For positive \<open>alpha\<close> and \<open>beta\<close> and every non-empty neighbour set whose
  distances all lie strictly between \<open>0\<close> and \<open>cutoff\<close>, the call with normalisation
  returns a descriptor \<open>p\<close> whose Euclidean norm is exactly \<open>1\<close>.
\<close>

theorem normalized_unit_norm:
  assumes "0 < alpha" "0 < beta" "r \<noteq> []" "valid_neighbors r cutoff"
  shows "\<exists>p q. rbf_descriptor r cutoff alpha beta True = Inr (p, q) \<and> linalg_norm p = Fin 1"
proof -
  obtain row where "row \<in> set r" using assms(3) by (cases r) auto
  then have c: "0 < cutoff" using assms(4) by (auto simp: valid_neighbors_def)
  have a: "alpha \<noteq> 0" "beta \<noteq> 0" "cutoff \<noteq> 0" using assms c by simp_all
  note v = valid_neighborsD [OF assms(4)]
  have G: "0 < grid_size cutoff alpha" by (rule grid_size_pos [OF assms(1) c])
  have N: "0 < raw_norm r cutoff alpha beta" by (rule raw_norm_pos [OF G assms(3) a(3) v])
  then have N0: "raw_norm r cutoff alpha beta \<noteq> 0" by simp
  show ?thesis
    by (simp add: rbf_normalized [OF a v N0] linalg_norm_tab_Fin unit_p_norm [OF N])
qed

theorem normalized_unit_norm_witness:
  "(0::real) < 1/2 \<and> [[1, 0, 0::real]] \<noteq> [] \<and> valid_neighbors [[1, 0, 0]] 3 \<and>
   (\<exists>p q. rbf_descriptor [[1, 0, 0]] 3 (1/2) (1/2) True = Inr (p, q) \<and> linalg_norm p = Fin 1)"
proof -
  have h: "(0::real) < 1/2" "[[1, 0, 0::real]] \<noteq> []" by simp_all
  show ?thesis
    using normalized_unit_norm [OF h(1) h(1) h(2) valid_example] h valid_example by blast
qed

subsection \<open>C3: the normalised Jacobian has no component along the descriptor\<close>

text \<open>
  Claim C3. For positive \<open>alpha\<close> and \<open>beta\<close> and every non-empty neighbour set whose
  distances all lie strictly between \<open>0\<close> and \<open>cutoff\<close>, the call with normalisation
  returns \<open>(p, q)\<close> such that for every neighbour \<open>j\<close> and coordinate \<open>i\<close> the sum over
  the grid points \<open>k\<close> of \<open>p[k] * q[k, j, i]\<close> is exactly \<open>0\<close>.
\<close>

theorem normalized_jacobian_projected:
  assumes "0 < alpha" "0 < beta" "r \<noteq> []" "valid_neighbors r cutoff"
  shows "\<exists>p q. rbf_descriptor r cutoff alpha beta True = Inr (p, q)
           \<and> (\<forall>j<length r. \<forall>i<3.
                 fsum (tab (length p) (\<lambda>k. fmul (p ! k) (q ! k ! j ! i))) = Fin 0)"
proof -
  obtain row where "row \<in> set r" using assms(3) by (cases r) auto
  then have c: "0 < cutoff" using assms(4) by (auto simp: valid_neighbors_def)
  have a: "alpha \<noteq> 0" "beta \<noteq> 0" "cutoff \<noteq> 0" using assms c by simp_all
  note v = valid_neighborsD [OF assms(4)]
  have G: "0 < grid_size cutoff alpha" by (rule grid_size_pos [OF assms(1) c])
  have N: "0 < raw_norm r cutoff alpha beta" by (rule raw_norm_pos [OF G assms(3) a(3) v])
  then have N0: "raw_norm r cutoff alpha beta \<noteq> 0" by simp
  have len: "\<And>j. j < length r \<Longrightarrow> length (r ! j) = 3"
    using assms(4) by (simp add: valid_neighbors_def)
  show ?thesis
    by (simp add: rbf_normalized [OF a v N0] len fsum_tab_Fin unit_q_orthogonal [OF N]
        cong: tab_cong)
qed

theorem normalized_jacobian_projected_witness:
  "(0::real) < 1/2 \<and> [[1, 0, 0::real]] \<noteq> [] \<and> valid_neighbors [[1, 0, 0]] 3 \<and>
   (\<exists>p q. rbf_descriptor [[1, 0, 0]] 3 (1/2) (1/2) True = Inr (p, q)
      \<and> (\<forall>j<length [[1, 0, 0::real]]. \<forall>i<3.
            fsum (tab (length p) (\<lambda>k. fmul (p ! k) (q ! k ! j ! i))) = Fin 0))"
proof -
  have h: "(0::real) < 1/2" "[[1, 0, 0::real]] \<noteq> []" by simp_all
  show ?thesis
    using normalized_jacobian_projected [OF h(1) h(1) h(2) valid_example] h valid_example by blast
qed

subsection \<open>C4: the formula of the raw feature vector\<close>

text \<open>
  Claim C4. For positive hyperparameters and every neighbour set with distances in
  \<open>(0, cutoff)\<close>, the call without normalisation returns a vector \<open>p\<close> with one entry per
  grid point \<open>x\<^sub>k\<close>, and \<open>p[k]\<close> is the sum over the neighbours \<open>j\<close> of
  \<open>gaussian(x\<^sub>k - d\<^sub>j, beta) * window(d\<^sub>j, cutoff)\<close>, with
  \<open>gaussian(x, beta) = exp(-0.5 * (x / beta)\<^sup>2)\<close> and \<open>window(d, cutoff) = (1 - d / cutoff)\<^sup>2\<close>.
\<close>

theorem raw_feature_formula:
  assumes "0 < cutoff" "0 < alpha" "0 < beta" "valid_neighbors r cutoff"
  shows "\<exists>p q grid. rbf_descriptor r cutoff alpha beta False = Inr (p, q)
           \<and> radial_grid cutoff alpha = Inr grid \<and> length p = length grid
           \<and> (\<forall>k<length grid. p ! k =
                 Fin (\<Sum>j<length r. gaussian_spec (grid ! k - distance (r ! j)) beta
                                       * window_spec (distance (r ! j)) cutoff))"
proof -
  have a: "alpha \<noteq> 0" "beta \<noteq> 0" "cutoff \<noteq> 0" using assms by simp_all
  show ?thesis
    by (simp add: rbf_raw [OF a valid_neighborsD [OF assms(4)]] radial_grid_ok [OF a(1)] raw_p_def)
qed

theorem raw_feature_formula_witness:
  "(0::real) < 3 \<and> (0::real) < 1/2 \<and> valid_neighbors [[1, 0, 0]] 3 \<and>
   (\<exists>p q grid. rbf_descriptor [[1, 0, 0]] 3 (1/2) (1/2) False = Inr (p, q)
           \<and> radial_grid 3 (1/2) = Inr grid \<and> length p = length grid
           \<and> (\<forall>k<length grid. p ! k =
                 Fin (\<Sum>j<length [[1, 0, 0::real]]. gaussian_spec (grid ! k - distance ([[1, 0, 0]] ! j)) (1/2)
                                       * window_spec (distance ([[1, 0, 0]] ! j)) 3)))"
proof -
  have h: "(0::real) < 3" "(0::real) < 1/2" by simp_all
  show ?thesis
    using raw_feature_formula [OF h(1) h(2) h(2) valid_example] h valid_example by blast
qed

subsection \<open>C5: an atom without neighbours\<close>

text \<open>
  With no neighbour the raw descriptor is the zero vector, its norm is zero, and the
  normalisation divides by it: for \<open>cutoff = 3\<close> and \<open>alpha = 0.5\<close> all six entries of
  the returned descriptor are \<open>NaN\<close>. There is no fallback.
\<close>

theorem empty_neighbors_nan_counterexample:
  "rbf_descriptor [] 3 (1/2) (1/2) True = Inr (replicate 6 NaN, replicate 6 [])"
proof -
  have g: "grid_size 3 (1/2) = 6" by (simp add: grid_size_def)
  have t0: "tab 0 f = []" for f :: "nat \<Rightarrow> 'a" by (simp add: tab_def)
  show ?thesis
    by (simp add: rbf_descriptor_def Let_def radial_grid_ok g smooth_cutoff_derivative_def t0
        fsum_def [of "[]"] linalg_norm_zeros tab_const cong: tab_cong)
qed

text \<open>
  Claim C5, amended. When normalisation is requested and the atom has no neighbours, the
  computation (for positive \<open>cutoff\<close> and \<open>alpha\<close>) returns without raising, but not a
  fallback: the norm of the all-zero raw descriptor is \<open>0\<close>, every entry of the returned
  descriptor is \<open>0/0 = NaN\<close>, and the Jacobian has no entry (one empty block per grid
  point).
\<close>

theorem empty_neighbors_nan:
  assumes "0 < cutoff" "0 < alpha"
  shows "\<exists>grid. radial_grid cutoff alpha = Inr grid \<and> grid \<noteq> []
           \<and> rbf_descriptor [] cutoff alpha beta True
               = Inr (replicate (length grid) NaN, replicate (length grid) [])"
proof -
  have a: "alpha \<noteq> 0" "cutoff \<noteq> 0" using assms by simp_all
  have t0: "tab 0 f = []" for f :: "nat \<Rightarrow> 'a" by (simp add: tab_def)
  have ne: "tab (grid_size cutoff alpha) f \<noteq> []" for f :: "nat \<Rightarrow> real"
    using grid_size_pos [OF assms(2,1)] by (simp add: tab_def)
  show ?thesis
    using a
    by (simp add: rbf_descriptor_def Let_def radial_grid_ok ne smooth_cutoff_derivative_def t0
        fsum_def [of "[]"] linalg_norm_zeros tab_const cong: tab_cong)
qed

theorem empty_neighbors_nan_witness:
  "(0::real) < 3 \<and> (0::real) < 1/2 \<and>
   (\<exists>grid. radial_grid 3 (1/2) = Inr grid \<and> grid \<noteq> []
           \<and> rbf_descriptor [] 3 (1/2) (1/2) True
               = Inr (replicate (length grid) NaN, replicate (length grid) []))"
proof -
  have h: "(0::real) < 3" "(0::real) < 1/2" by simp_all
  show ?thesis using empty_neighbors_nan [OF h, of "1/2"] h by blast
qed

subsection \<open>C6: the points of the radial grid\<close>

text \<open>
  For \<open>cutoff = 3\<close> and \<open>alpha = 2\<close> the grid is \<open>[0, 2]\<close>: two points, where
  \<open>floor(cutoff / alpha)\<close> is \<open>1\<close>.
\<close>

theorem radial_grid_floor_counterexample:
  "(0::real) < 2 \<and> (2::real) < 3 \<and> radial_grid 3 2 = Inr [0, 2]
   \<and> length [0, 2::real] \<noteq> nat \<lfloor>(3::real) / 2\<rfloor>"
proof -
  have c: "\<lceil>(3::real) / 2\<rceil> = 2" by (simp add: ceiling_eq_iff)
  have f: "\<lfloor>(3::real) / 2\<rfloor> = 1" by (simp add: floor_eq_iff)
  show ?thesis
    by (simp add: radial_grid_def arange_def c f upt_rec)
qed

text \<open>
  Claim C6, amended. For all positive \<open>cutoff\<close> and \<open>alpha\<close> with \<open>alpha < cutoff\<close>, the
  radial grid has exactly \<open>ceil(cutoff / alpha)\<close> points, and its \<open>k\<close>-th point is
  \<open>k * alpha\<close> for \<open>k = 0 .. ceil(cutoff / alpha) - 1\<close>.
\<close>

theorem radial_grid_points:
  assumes "0 < cutoff" "0 < alpha" "alpha < cutoff"
  shows "\<exists>grid. radial_grid cutoff alpha = Inr grid
           \<and> length grid = nat \<lceil>cutoff / alpha\<rceil>
           \<and> (\<forall>k<length grid. grid ! k = real k * alpha)"
  using assms by (simp add: radial_grid_def arange_def)

theorem radial_grid_points_witness:
  "(0::real) < 3 \<and> (0::real) < 2 \<and> (2::real) < 3 \<and>
   (\<exists>grid. radial_grid 3 2 = Inr grid
           \<and> length grid = nat \<lceil>(3::real) / 2\<rceil>
           \<and> (\<forall>k<length grid. grid ! k = real k * 2))"
proof -
  have h: "(0::real) < 3" "(0::real) < 2" "(2::real) < 3" by simp_all
  show ?thesis
    using radial_grid_points [OF h] h by blast
qed

subsection \<open>C7: the outcomes of building the radial grid\<close>

text \<open>
  \<open>radial_grid\<close> validates nothing: a negative \<open>cutoff\<close> or a negative \<open>alpha\<close> gives
  the empty grid rather than an error, and \<open>alpha = cutoff\<close> gives the one-point grid
  \<open>[0]\<close>, which is not empty.
\<close>

theorem radial_grid_no_validation_counterexample:
  "radial_grid (- 1) 1 = Inr [] \<and> radial_grid 3 (- 1) = Inr [] \<and> radial_grid 1 1 = Inr [0]"
  by (simp add: radial_grid_def arange_def upt_rec)

text \<open>
  Claim C7, amended. Building the radial grid fails only for \<open>alpha = 0\<close>. For every other
  \<open>alpha\<close> it succeeds; the sequence it returns is empty exactly when
  \<open>cutoff / alpha \<le> 0\<close> (so \<open>cutoff \<le> 0\<close> with a positive \<open>alpha\<close> gives an empty grid, not
  an error), and for positive \<open>cutoff\<close> and \<open>alpha\<close>, also when \<open>alpha \<ge> cutoff\<close>, it is
  non-empty and strictly increasing.
\<close>

theorem radial_grid_outcomes:
  "(isl (radial_grid cutoff alpha) \<longleftrightarrow> alpha = 0) \<and>
   (alpha \<noteq> 0 \<longrightarrow>
      (\<exists>grid. radial_grid cutoff alpha = Inr grid
         \<and> (grid = [] \<longleftrightarrow> cutoff / alpha \<le> 0)
         \<and> (0 < cutoff \<and> 0 < alpha \<longrightarrow> grid \<noteq> [] \<and> sorted_wrt (<) grid)))"
proof -
  have s: "sorted_wrt (<) (map (\<lambda>k. real k * alpha) [0..<n])" if "0 < alpha" for n
    using that by (simp add: sorted_wrt_map sorted_wrt_iff_nth_less)
  have e: "(nat \<lceil>cutoff / alpha\<rceil> = 0) = (cutoff / alpha \<le> 0)"
    by (simp add: ceiling_le_iff)
  have p: "\<not> cutoff / alpha \<le> 0" if "0 < cutoff" "0 < alpha"
    using that by (simp add: not_le)
  show ?thesis
    using s e p by (auto simp add: radial_grid_def arange_def)
qed

theorem radial_grid_outcomes_witness:
  "(isl (radial_grid 1 1) \<longleftrightarrow> (1::real) = 0) \<and>
   (\<exists>grid. radial_grid 1 1 = Inr grid \<and> grid \<noteq> [] \<and> sorted_wrt (<) grid)"
  using radial_grid_outcomes [of 1 1] by simp

subsection \<open>C8: distances outside the contract\<close>

text \<open>
  A neighbour at distance \<open>0\<close> is not rejected: the call returns, and the Jacobian entries
  of that neighbour are \<open>NaN\<close>, from the division \<open>r / d = 0/0\<close>.
\<close>

theorem zero_distance_not_rejected_counterexample:
  "distance [0, 0, 0] = 0 \<and>
   (\<exists>p q. rbf_descriptor [[0, 0, 0]] 3 (1/2) (1/2) True = Inr (p, q) \<and> q ! 0 ! 0 ! 0 = NaN)"
proof -
  have g: "grid_size 3 (1/2) = 6" by (simp add: grid_size_def)
  have d: "distance [0, 0, 0] = 0" by (simp add: distance_def)
  have "\<exists>p q. rbf_descriptor [[0, 0, 0]] 3 (1/2) (1/2) True = Inr (p, q) \<and> q ! 0 ! 0 ! 0 = NaN"
    by (simp add: rbf_descriptor_def Let_def radial_grid_ok g smooth_cutoff_derivative_def
        linalg_norm_Fin d cong: tab_cong split: option.splits)
  with d show ?thesis by blast
qed

text \<open>
  Claim C8, amended. The descriptor computation fails with the assertion error exactly when
  some neighbour's distance is \<open>\<ge> cutoff\<close>, whatever the other arguments: such a neighbour
  is never clamped or dropped. A distance of \<open>0\<close> is not checked.
\<close>

theorem assertion_iff_beyond_cutoff:
  "(rbf_descriptor r cutoff alpha beta normalized = Inl AssertionError)
     = (\<exists>row\<in>set r. cutoff \<le> distance row)"
  by (auto simp add: rbf_descriptor_def Let_def radial_grid_def arange_def smooth_cutoff_derivative_def
      list_all_iff linalg_norm_Fin not_less split: sum.splits)

theorem assertion_iff_beyond_cutoff_witness:
  "(\<exists>row\<in>set [[1, 0, 0]]. (1::real) \<le> distance row)
   \<and> rbf_descriptor [[1, 0, 0]] 1 (1/2) (1/2) True = Inl AssertionError"
proof -
  have h: "\<exists>row\<in>set [[1, 0, 0]]. (1::real) \<le> distance row" by (simp add: distance_def)
  show ?thesis
    using assertion_iff_beyond_cutoff [of "[[1, 0, 0]]" 1 "1/2" "1/2" True] h by blast
qed

subsection \<open>C9: rotation invariance\<close>

text \<open>
  Claim C9. For positive \<open>cutoff\<close> and \<open>alpha\<close>, every neighbour set with distances in
  \<open>(0, cutoff)\<close> and every orthogonal matrix \<open>R\<close> (every rotation is one) applied to all
  relative vectors, \<open>rbf_descriptor\<close> returns on the rotated vectors the same descriptor
  \<open>p\<close> as on the original ones, with or without normalisation.
\<close>

theorem rotation_invariance:
  assumes "orthogonal_matrix R" "0 < cutoff" "0 < alpha" "valid_neighbors r cutoff"
  shows "\<exists>p q q'. rbf_descriptor r cutoff alpha beta normalized = Inr (p, q)
           \<and> rbf_descriptor (map (mat_vec R) r) cutoff alpha beta normalized = Inr (p, q')"
proof -
  have a: "alpha \<noteq> 0" "cutoff \<noteq> 0" using assms by simp_all
  have lt: "\<forall>row\<in>set r. distance row < cutoff"
    using assms(4) by (simp add: valid_neighbors_def)
  have "map distance (map (mat_vec R) r) = map distance r"
    using assms(1,4) by (simp add: valid_neighbors_def distance_mat_vec)
  then have eq: "map_sum id fst (rbf_descriptor (map (mat_vec R) r) cutoff alpha beta normalized)
       = map_sum id fst (rbf_descriptor r cutoff alpha beta normalized)"
    by (rule rbf_p_distances)
  obtain p q where pq: "rbf_descriptor r cutoff alpha beta normalized = Inr (p, q)"
    using rbf_returns [OF a lt] by blast
  with eq have "map_sum id fst (rbf_descriptor (map (mat_vec R) r) cutoff alpha beta normalized) = Inr p"
    by simp
  then obtain q' where "rbf_descriptor (map (mat_vec R) r) cutoff alpha beta normalized = Inr (p, q')"
    by (cases "rbf_descriptor (map (mat_vec R) r) cutoff alpha beta normalized") auto
  with pq show ?thesis by blast
qed

theorem rotation_invariance_witness:
  "orthogonal_matrix [[0, - 1, 0], [1, 0, 0], [0, 0, 1]] \<and> (0::real) < 3 \<and> (0::real) < 1/2
   \<and> valid_neighbors [[1, 0, 0]] 3
   \<and> (\<exists>p q q'. rbf_descriptor [[1, 0, 0]] 3 (1/2) (1/2) True = Inr (p, q)
           \<and> rbf_descriptor (map (mat_vec [[0, - 1, 0], [1, 0, 0], [0, 0, 1]]) [[1, 0, 0]]) 3 (1/2) (1/2) True
               = Inr (p, q'))"
proof -
  have h: "(0::real) < 3" "(0::real) < 1/2" by simp_all
  show ?thesis
    using rotation_invariance [OF orthogonal_example h valid_example, of "1/2" True]
      orthogonal_example h valid_example by blast
qed

subsection \<open>C10: the raw features are positive\<close>

text \<open>
  In double precision the claim fails. For the neighbour at \<open>(2.75, 0, 0)\<close> with
  \<open>cutoff = 3\<close>, \<open>alpha = 0.5\<close> and \<open>beta = 1/256\<close> the nearest grid point is \<open>0.25\<close>
  away, the arguments of the exponential are at most \<open>-2048\<close>, and every Gaussian
  underflows to \<open>0.0\<close>: the raw feature vector is all zero, its norm is \<open>0\<close>, and the
  normalisation divides by it, so that every entry of the normalised descriptor is \<open>NaN\<close>.
\<close>

theorem raw_feature_underflow_counterexample:
  "valid_neighbors [[11/4, 0, 0]] 3 \<and> (0::real) < 1/2 \<and> (0::real) < 1/256
   \<and> map_sum id fst (rbf_descriptor_with fexp_double [[11/4, 0, 0]] 3 (1/2) (1/256) False)
       = Inr ([Fin 0, Fin 0, Fin 0, Fin 0, Fin 0, Fin 0])
   \<and> linalg_norm ([Fin 0, Fin 0, Fin 0, Fin 0, Fin 0, Fin 0]) = Fin 0
   \<and> map_sum id fst (rbf_descriptor_with fexp_double [[11/4, 0, 0]] 3 (1/2) (1/256) True)
       = Inr ([NaN, NaN, NaN, NaN, NaN, NaN])"
proof -
  have g: "grid_size 3 (1/2) = 6" by (simp add: grid_size_def)
  have d: "distance [11/4, 0, 0] = 11/4" by (simp add: distance_axis)
  have raw: "map_sum id fst (rbf_descriptor_with fexp_double [[11/4, 0, 0]] 3 (1/2) (1/256) False)
       = Inr ([Fin 0, Fin 0, Fin 0, Fin 0, Fin 0, Fin 0])"
    apply (simp add: rbf_descriptor_with_def Let_def radial_grid_ok g smooth_cutoff_derivative_def
        linalg_norm_Fin d smooth_cutoff_Fin cong: tab_cong)
    apply (simp add: tab_def upt6 fsum_def gaussian_double_underflow)
    done
  have nrm: "map_sum id fst (rbf_descriptor_with fexp_double [[11/4, 0, 0]] 3 (1/2) (1/256) True)
       = Inr ([NaN, NaN, NaN, NaN, NaN, NaN])"
    apply (simp add: rbf_descriptor_with_def Let_def radial_grid_ok g smooth_cutoff_derivative_def
        linalg_norm_Fin d smooth_cutoff_Fin cong: tab_cong)
    apply (simp add: tab_def upt6 fsum_def gaussian_double_underflow linalg_norm_def)
    done
  show ?thesis
    using raw nrm valid_underflow_example by (simp add: linalg_norm_def fsum_def)
qed

text \<open>
  Claim C10, amended. In exact arithmetic, for positive \<open>alpha\<close> and \<open>beta\<close> and every
  non-empty neighbour set whose distances all lie strictly between \<open>0\<close> and \<open>cutoff\<close>,
  the raw feature vector is not empty, each of its entries is a strictly positive finite
  number, and its Euclidean norm is a strictly positive finite number, so the
  normalisation does not divide by zero. (In double precision the Gaussian factors can
  underflow to \<open>0.0\<close>, and nothing in the code guards the division.)
\<close>

theorem raw_feature_positive:
  assumes "0 < alpha" "0 < beta" "r \<noteq> []" "valid_neighbors r cutoff"
  shows "\<exists>p q. rbf_descriptor r cutoff alpha beta False = Inr (p, q) \<and> p \<noteq> []
           \<and> (\<forall>k<length p. \<exists>a. p ! k = Fin a \<and> 0 < a)
           \<and> (\<exists>N. linalg_norm p = Fin N \<and> 0 < N)"
proof -
  obtain row where "row \<in> set r" using assms(3) by (cases r) auto
  then have c: "0 < cutoff" using assms(4) by (auto simp: valid_neighbors_def)
  have a: "alpha \<noteq> 0" "beta \<noteq> 0" "cutoff \<noteq> 0" using assms c by simp_all
  note v = valid_neighborsD [OF assms(4)]
  have G: "0 < grid_size cutoff alpha" by (rule grid_size_pos [OF assms(1) c])
  have N: "0 < raw_norm r cutoff alpha beta" by (rule raw_norm_pos [OF G assms(3) a(3) v])
  have ne: "tab (grid_size cutoff alpha) f \<noteq> []" for f :: "nat \<Rightarrow> fval"
    using G by (simp add: tab_def)
  show ?thesis
    using N
    by (simp add: rbf_raw [OF a v] ne raw_p_pos [OF assms(3) a(3) v] linalg_norm_tab_Fin
        raw_norm_def [symmetric])
qed

theorem raw_feature_positive_witness:
  "(0::real) < 1/2 \<and> [[1, 0, 0::real]] \<noteq> [] \<and> valid_neighbors [[1, 0, 0]] 3 \<and>
   (\<exists>p q. rbf_descriptor [[1, 0, 0]] 3 (1/2) (1/2) False = Inr (p, q) \<and> p \<noteq> []
      \<and> (\<forall>k<length p. \<exists>a. p ! k = Fin a \<and> 0 < a)
      \<and> (\<exists>N. linalg_norm p = Fin N \<and> 0 < N))"
proof -
  have h: "(0::real) < 1/2" "[[1, 0, 0::real]] \<noteq> []" by simp_all
  show ?thesis
    using raw_feature_positive [OF h(1) h(1) h(2) valid_example] h valid_example by blast
qed

end
